theory Spec2Isabelle
  imports Complex_Main "HOL-Library.Multiset" "HOL-Library.Word"
begin

section \<open>Data model\<close>

text \<open>
  The script \<^verbatim>\<open>model_trainer.py\<close> holds one function of interest,
  \<^verbatim>\<open>process_image\<close>. Images are numpy arrays of 8-bit values: a grayscale image is
  a list of rows, a colour image a list of rows of (blue, green, red) triples. A contour is
  the ordered list of its points, each an (x, y) pair of integers, where x counts columns
  and y counts rows.
\<close>

type_synonym gray_image = "8 word list list"
type_synonym color = "8 word \<times> 8 word \<times> 8 word"
type_synonym color_image = "color list list"
type_synonym point = "int \<times> int"
type_synonym contour = "point list"
type_synonym hierarchy = "int list list"

text \<open>
  \<^verbatim>\<open>cv2.findContours\<close> returns a pair (contours, hierarchy) or a triple
  (image, contours, hierarchy), depending on the version of the library.
\<close>

datatype contours_info =
  Info2 "contour list" hierarchy
| Info3 gray_image "contour list" hierarchy

datatype retrieval_mode = RETR_EXTERNAL | RETR_LIST | RETR_CCOMP | RETR_TREE
datatype approximation_method = CHAIN_APPROX_NONE | CHAIN_APPROX_SIMPLE
datatype font_face = FONT_HERSHEY_SIMPLEX | FONT_HERSHEY_PLAIN
datatype line_type = LINE_4 | LINE_8 | LINE_AA

text \<open>
  An entry of the result of \<^verbatim>\<open>readtext\<close>: bounding box, text, confidence. A reader is
  known by its \<^verbatim>\<open>readtext\<close> method.
\<close>

type_synonym ocr_entry = "point list \<times> string \<times> real"
type_synonym reader = "gray_image \<Rightarrow> ocr_entry list"

text \<open>
  The imaging and recognition libraries are not part of the script; their functions are
  parameters of the model. Functions that draw into their first argument in place
  (\<^verbatim>\<open>drawContours\<close>, \<^verbatim>\<open>putText\<close>, \<^verbatim>\<open>rectangle\<close>) take the array and return its
  new contents.
\<close>

record libraries =
  cvtColor_BGR2GRAY :: "color_image \<Rightarrow> gray_image"
  bilateralFilter :: "gray_image \<Rightarrow> int \<Rightarrow> int \<Rightarrow> int \<Rightarrow> gray_image"
  Canny :: "gray_image \<Rightarrow> int \<Rightarrow> int \<Rightarrow> gray_image"
  findContours :: "gray_image \<Rightarrow> retrieval_mode \<Rightarrow> approximation_method \<Rightarrow> contours_info"
  contourArea :: "contour \<Rightarrow> real"
  approxPolyDP :: "contour \<Rightarrow> int \<Rightarrow> bool \<Rightarrow> contour"
  drawContours :: "gray_image \<Rightarrow> contour list \<Rightarrow> int \<Rightarrow> 8 word \<Rightarrow> int \<Rightarrow> gray_image"
  putText :: "color_image \<Rightarrow> string \<Rightarrow> point \<Rightarrow> font_face \<Rightarrow> int \<Rightarrow> color \<Rightarrow> int
                \<Rightarrow> line_type \<Rightarrow> color_image"
  rectangle :: "color_image \<Rightarrow> point \<Rightarrow> point \<Rightarrow> color \<Rightarrow> int \<Rightarrow> color_image"
  easyocr_Reader :: "string list \<Rightarrow> reader"

text \<open>
  The state outside the function: the reader cached by \<^verbatim>\<open>st.cache_resource\<close>, and the
  images handed to \<^verbatim>\<open>readtext\<close> so far, oldest first.
\<close>

record world =
  reader_cache :: "reader option"
  readtext_calls :: "gray_image list"

datatype py_error = ValueError

text \<open>
  What \<^verbatim>\<open>process_image\<close> returns is a triple; each component is \<^verbatim>\<open>None\<close> on the two
  guarded failure exits.
\<close>

type_synonym result = "color_image option \<times> string option \<times> gray_image option"

record outcome =
  returned :: "py_error + result"
  buffer :: color_image
  world_after :: world

section \<open>The function\<close>

text \<open>\<^verbatim>\<open>load_reader\<close>: the reader is built on the first call and reused afterwards.\<close>

definition load_reader :: "libraries \<Rightarrow> world \<Rightarrow> reader \<times> world" where
  "load_reader lib w =
     (case reader_cache w of
        Some r \<Rightarrow> (r, w)
      | None \<Rightarrow> (let r = easyocr_Reader lib [''en''] in (r, w\<lparr>reader_cache := Some r\<rparr>)))"

text \<open>
  \<^verbatim>\<open>sorted(xs, key=f, reverse=True)\<close>: a stable sort in descending order of the key.
  Elements with equal keys keep their order in \<^verbatim>\<open>xs\<close>; the interpreter reverses the
  list, sorts it stably in ascending order and reverses it again.
\<close>

definition sorted_reverse :: "('a \<Rightarrow> 'k::linorder) \<Rightarrow> 'a list \<Rightarrow> 'a list" where
  "sorted_reverse key xs = rev (sort_key key (rev xs))"

text \<open>Steps 1 to 3: grayscale, blur, edges, contours, and the ten largest by area.\<close>

definition gray_of :: "libraries \<Rightarrow> color_image \<Rightarrow> gray_image" where
  "gray_of lib img_array = cvtColor_BGR2GRAY lib img_array"

definition all_contours :: "libraries \<Rightarrow> color_image \<Rightarrow> contour list" where
  "all_contours lib img_array =
     (let gray = gray_of lib img_array;
          bfilter = bilateralFilter lib gray 11 17 17;
          edged = Canny lib bfilter 30 200;
          contours_info = findContours lib edged RETR_TREE CHAIN_APPROX_SIMPLE
      in case contours_info of
           Info2 contours _ \<Rightarrow> contours
         | Info3 _ contours _ \<Rightarrow> contours)"

definition top_contours :: "libraries \<Rightarrow> color_image \<Rightarrow> contour list" where
  "top_contours lib img_array =
     take 10 (sorted_reverse (contourArea lib) (all_contours lib img_array))"

text \<open>
  Step 4, the loop over the candidates: the first one whose approximation has four points
  is the location, and the loop stops there.
\<close>

fun find_location :: "libraries \<Rightarrow> contour list \<Rightarrow> contour option" where
  "find_location lib [] = None"
| "find_location lib (contour # contours) =
     (let approx = approxPolyDP lib contour 10 True
      in if length approx = 4 then Some approx else find_location lib contours)"

text \<open>
  Step 5. \<^verbatim>\<open>np.zeros(gray.shape, np.uint8)\<close> is an array of zeros with the rows and columns
  of \<^verbatim>\<open>gray\<close>; \<^verbatim>\<open>np.where(mask == 255)\<close> gives the row indices and the column indices of
  the matching entries, in row-major order; \<^verbatim>\<open>np.min\<close> and \<^verbatim>\<open>np.max\<close> raise
  \<^verbatim>\<open>ValueError\<close> on an empty array.
\<close>

definition shape :: "'a list list \<Rightarrow> nat \<times> nat" where
  "shape a = (length a, case a of [] \<Rightarrow> 0 | row # _ \<Rightarrow> length row)"

definition np_zeros :: "nat \<times> nat \<Rightarrow> gray_image" where
  "np_zeros s = replicate (fst s) (replicate (snd s) 0)"

definition matching_indices :: "gray_image \<Rightarrow> 8 word \<Rightarrow> (nat \<times> nat) list" where
  "matching_indices a v =
     concat (map (\<lambda>i. map (\<lambda>j. (i, j)) (filter (\<lambda>j. a ! i ! j = v) [0 ..< length (a ! i)]))
               [0 ..< length a])"

definition np_where_eq :: "gray_image \<Rightarrow> 8 word \<Rightarrow> nat list \<times> nat list" where
  "np_where_eq a v = (map fst (matching_indices a v), map snd (matching_indices a v))"

fun np_min :: "nat list \<Rightarrow> py_error + nat" where
  "np_min [] = Inl ValueError"
| "np_min (x # xs) = Inr (fold min xs x)"

fun np_max :: "nat list \<Rightarrow> py_error + nat" where
  "np_max [] = Inl ValueError"
| "np_max (x # xs) = Inr (fold max xs x)"

text \<open>The slice \<^verbatim>\<open>a[lo:hi]\<close> for indices that are not negative.\<close>

definition slice :: "'a list \<Rightarrow> nat \<Rightarrow> nat \<Rightarrow> 'a list" where
  "slice a lo hi = drop lo (take hi a)"

definition mask_of :: "libraries \<Rightarrow> gray_image \<Rightarrow> contour \<Rightarrow> gray_image" where
  "mask_of lib gray location = drawContours lib (np_zeros (shape gray)) [location] 0 255 (- 1)"

text \<open>
  Lines 62 to 64: the least and greatest row and column of the entries of the mask that
  equal 255. The call of \<^verbatim>\<open>cv2.bitwise_and\<close> on line 60 writes to no array of the
  function and its value is dropped, so it has no counterpart here.
\<close>

definition bounding_box :: "gray_image \<Rightarrow> py_error + (nat \<times> nat \<times> nat \<times> nat)" where
  "bounding_box mask_array =
     (let (x, y) = np_where_eq mask_array 255
      in case np_min x of Inl e \<Rightarrow> Inl e | Inr x1 \<Rightarrow>
        (case np_min y of Inl e \<Rightarrow> Inl e | Inr y1 \<Rightarrow>
          (case np_max x of Inl e \<Rightarrow> Inl e | Inr x2 \<Rightarrow>
            (case np_max y of Inl e \<Rightarrow> Inl e | Inr y2 \<Rightarrow> Inr (x1, y1, x2, y2)))))"

text \<open>Line 65: \<^verbatim>\<open>gray[x1:x2 + 1, y1:y2 + 1]\<close>.\<close>

definition crop_image :: "gray_image \<Rightarrow> gray_image \<Rightarrow> py_error + gray_image" where
  "crop_image gray mask_array =
     (case bounding_box mask_array of
        Inl e \<Rightarrow> Inl e
      | Inr (x1, y1, x2, y2) \<Rightarrow>
          Inr (map (\<lambda>row. slice row y1 (y2 + 1)) (slice gray x1 (x2 + 1))))"

text \<open>
  Step 7. The text is placed at the column of point 0 and the row of point 1 plus 60; the
  rectangle has points 0 and 2 as opposite corners. Both calls draw into \<^verbatim>\<open>img_array\<close>.
  At this place of the function \<^verbatim>\<open>approx\<close> is the array that \<^verbatim>\<open>location\<close> names.
\<close>

definition text_org :: "contour \<Rightarrow> point" where
  "text_org approx = (fst (approx ! 0), snd (approx ! 1) + 60)"

definition annotate :: "libraries \<Rightarrow> color_image \<Rightarrow> string \<Rightarrow> contour \<Rightarrow> color_image" where
  "annotate lib img_array text approx =
     (let font = FONT_HERSHEY_SIMPLEX;
          img1 = putText lib img_array text (text_org approx) font 1 (0, 255, 0) 2 LINE_AA
      in rectangle lib img1 (approx ! 0) (approx ! 2) (0, 255, 0) 3)"

definition not_found :: result where
  "not_found = (None, None, None)"

definition process_image :: "libraries \<Rightarrow> world \<Rightarrow> color_image \<Rightarrow> outcome" where
  "process_image lib w img_array =
     (let (reader, w1) = load_reader lib w;
          gray = gray_of lib img_array;
          contours = top_contours lib img_array
      in case find_location lib contours of
           None \<Rightarrow> \<lparr>returned = Inr not_found, buffer = img_array, world_after = w1\<rparr>
         | Some location \<Rightarrow>
             (case crop_image gray (mask_of lib gray location) of
                Inl e \<Rightarrow> \<lparr>returned = Inl e, buffer = img_array, world_after = w1\<rparr>
              | Inr cropped_image \<Rightarrow>
                  (let result = reader cropped_image;
                       w2 = w1\<lparr>readtext_calls := readtext_calls w1 @ [cropped_image]\<rparr>
                   in case result of
                        [] \<Rightarrow> \<lparr>returned = Inr not_found, buffer = img_array, world_after = w2\<rparr>
                      | entry # _ \<Rightarrow>
                          (let text = fst (snd entry);
                               img2 = annotate lib img_array text location
                           in \<lparr>returned = Inr (Some img2, Some text, Some cropped_image),
                               buffer = img2, world_after = w2\<rparr>))))"

section \<open>Vocabulary of the properties\<close>

text \<open>
  An array of \<open>h\<close> rows and \<open>w\<close> columns; an entry of the mask that is foreground (equal to
  255, the colour the polygon is filled with); a mask with at least one such entry.
\<close>

definition has_shape :: "'a list list \<Rightarrow> nat \<Rightarrow> nat \<Rightarrow> bool" where
  "has_shape a h w = (length a = h \<and> list_all (\<lambda>row. length row = w) a)"

definition is_foreground :: "gray_image \<Rightarrow> nat \<Rightarrow> nat \<Rightarrow> bool" where
  "is_foreground a i j = (i < length a \<and> j < length (a ! i) \<and> a ! i ! j = 255)"

definition has_foreground :: "gray_image \<Rightarrow> bool" where
  "has_foreground a = list_ex (\<lambda>row. 255 \<in> set row) a"

section \<open>Test doubles\<close>

text \<open>
  A picture of four rows and five columns, three contours, and stand-ins for the library
  functions, on which the function can be run: the filters return their input, the area
  of a contour is read from a table, the approximation of a contour is the contour, the
  drawing functions write single pixels, and the reader finds one text.
\<close>

definition demo_image :: color_image where
  "demo_image = map (\<lambda>i. map (\<lambda>j. (0, of_nat (10 * i + j), 0)) [0 ..< 5]) [0 ..< 4]"

definition demo_triangle :: contour where
  "demo_triangle = [(0, 0), (4, 0), (4, 3)]"

definition demo_small :: contour where
  "demo_small = [(1, 1), (2, 1), (2, 2), (1, 2)]"

definition demo_plate :: contour where
  "demo_plate = [(1, 1), (3, 1), (3, 2), (1, 2)]"

definition demo_libraries :: libraries where
  "demo_libraries =
     \<lparr>cvtColor_BGR2GRAY = map (map (\<lambda>(b, g, r). g)),
      bilateralFilter = (\<lambda>a d sc ss. a),
      Canny = (\<lambda>a lo hi. a),
      findContours = (\<lambda>a m k. Info2 [demo_small, demo_triangle, demo_plate] []),
      contourArea = (\<lambda>c. if c = demo_triangle then 6 else if c = demo_plate then 2 else 1),
      approxPolyDP = (\<lambda>c eps closed. c),
      drawContours = (\<lambda>a cs i v t.
        fold (\<lambda>(x, y) m. m[nat y := (m ! nat y)[nat x := v]]) (cs ! nat i) a),
      putText = (\<lambda>a s org f sc col th lt. a[0 := (a ! 0)[0 := col]]),
      rectangle = (\<lambda>a p q col th. a[nat (snd p) := (a ! nat (snd p))[nat (fst p) := col]]),
      easyocr_Reader = (\<lambda>langs a. [([(0, 0)], ''ABC123'', 9 / 10)])\<rparr>"

text \<open>
  The same with no quadrilateral, with a mask left blank, with a mask filled everywhere, and
  with a reader that finds nothing.
\<close>

definition no_quad_libraries :: libraries where
  "no_quad_libraries = demo_libraries\<lparr>approxPolyDP := (\<lambda>c eps closed. take 3 c)\<rparr>"


definition full_mask_libraries :: libraries where
  "full_mask_libraries = demo_libraries\<lparr>drawContours := (\<lambda>a cs i v t. map (map (\<lambda>p. v)) a)\<rparr>"

definition no_text_libraries :: libraries where
  "no_text_libraries = demo_libraries\<lparr>easyocr_Reader := (\<lambda>langs a. [])\<rparr>"


definition fresh_world :: world where
  "fresh_world = \<lparr>reader_cache = None, readtext_calls = []\<rparr>"

text \<open>A quadrilateral whose first two points differ in both coordinates.\<close>

definition skewed_plate :: contour where
  "skewed_plate = [(10, 20), (50, 22), (52, 40), (12, 38)]"

section \<open>The ranking\<close>

lemma mset_sorted_reverse: "mset (sorted_reverse key xs) = mset xs"
  by (simp add: sorted_reverse_def)

lemma sorted_reverse_descending:
  "sorted_wrt (\<lambda>a b. key b \<le> key a) (sorted_reverse key xs)"
proof -
  have "sorted (map key (sort_key key (rev xs)))"
    by (rule sorted_sort_key)
  then have "sorted_wrt (\<lambda>a b. key a \<le> key b) (sort_key key (rev xs))"
    by (simp add: sorted_map)
  then show ?thesis
    by (simp add: sorted_reverse_def sorted_wrt_rev)
qed

lemma sorted_reverse_stable:
  "filter (\<lambda>c. key c = k) (sorted_reverse key xs) = filter (\<lambda>c. key c = k) xs"
proof -
  have "filter (\<lambda>c. key c = k) (sorted_reverse key xs)
        = rev (filter (\<lambda>c. key c = k) (sort_key key (rev xs)))"
    by (simp add: sorted_reverse_def rev_filter)
  also have "\<dots> = rev (filter (\<lambda>c. key c = k) (rev xs))"
    by (simp only: sort_key_stable)
  also have "\<dots> = filter (\<lambda>c. key c = k) xs"
    by (simp add: rev_filter)
  finally show ?thesis .
qed

section \<open>The search loop\<close>

lemma find_location_None:
  "find_location lib cs = None \<longleftrightarrow> (\<forall>c \<in> set cs. length (approxPolyDP lib c 10 True) \<noteq> 4)"
  by (induction cs) (simp_all add: Let_def)

lemma find_location_Some:
  "find_location lib cs = Some loc \<longleftrightarrow>
     (\<exists>i < length cs. approxPolyDP lib (cs ! i) 10 True = loc \<and> length loc = 4 \<and>
        (\<forall>j < i. length (approxPolyDP lib (cs ! j) 10 True) \<noteq> 4))"
proof (induction cs)
  case Nil
  show ?case by simp
next
  case (Cons c cs)
  show ?case
  proof (cases "length (approxPolyDP lib c 10 True) = 4")
    case True
    have "(\<exists>i < length (c # cs). approxPolyDP lib ((c # cs) ! i) 10 True = loc \<and> length loc = 4 \<and>
        (\<forall>j < i. length (approxPolyDP lib ((c # cs) ! j) 10 True) \<noteq> 4))
        \<longleftrightarrow> approxPolyDP lib c 10 True = loc"
    proof
      assume "\<exists>i < length (c # cs). approxPolyDP lib ((c # cs) ! i) 10 True = loc \<and> length loc = 4 \<and>
        (\<forall>j < i. length (approxPolyDP lib ((c # cs) ! j) 10 True) \<noteq> 4)"
      then obtain i where i: "approxPolyDP lib ((c # cs) ! i) 10 True = loc"
        "\<forall>j < i. length (approxPolyDP lib ((c # cs) ! j) 10 True) \<noteq> 4" by blast
      have "i = 0"
      proof (rule ccontr)
        assume "i \<noteq> 0"
        then have "0 < i" by simp
        with i(2) have "length (approxPolyDP lib ((c # cs) ! 0) 10 True) \<noteq> 4" by blast
        with True show False by simp
      qed
      with i(1) show "approxPolyDP lib c 10 True = loc" by simp
    next
      assume "approxPolyDP lib c 10 True = loc"
      with True show "\<exists>i < length (c # cs). approxPolyDP lib ((c # cs) ! i) 10 True = loc \<and> length loc = 4 \<and>
        (\<forall>j < i. length (approxPolyDP lib ((c # cs) ! j) 10 True) \<noteq> 4)"
        by (intro exI[of _ 0]) simp
    qed
    with True show ?thesis by (simp add: Let_def)
  next
    case False
    have "(\<exists>i < length (c # cs). approxPolyDP lib ((c # cs) ! i) 10 True = loc \<and> length loc = 4 \<and>
        (\<forall>j < i. length (approxPolyDP lib ((c # cs) ! j) 10 True) \<noteq> 4))
        \<longleftrightarrow> (\<exists>i < length cs. approxPolyDP lib (cs ! i) 10 True = loc \<and> length loc = 4 \<and>
        (\<forall>j < i. length (approxPolyDP lib (cs ! j) 10 True) \<noteq> 4))" (is "?L \<longleftrightarrow> ?R")
    proof
      assume ?L
      then obtain i where i: "i < length (c # cs)" "approxPolyDP lib ((c # cs) ! i) 10 True = loc"
        "length loc = 4" "\<forall>j < i. length (approxPolyDP lib ((c # cs) ! j) 10 True) \<noteq> 4" by blast
      from i(2,3) False have "i \<noteq> 0" by (cases i) auto
      then obtain k where k: "i = Suc k" by (cases i) auto
      have "\<forall>j < k. length (approxPolyDP lib (cs ! j) 10 True) \<noteq> 4"
      proof (intro allI impI)
        fix j assume "j < k"
        then have "Suc j < i" using k by simp
        with i(4) have "length (approxPolyDP lib ((c # cs) ! Suc j) 10 True) \<noteq> 4" by blast
        then show "length (approxPolyDP lib (cs ! j) 10 True) \<noteq> 4" by simp
      qed
      with i k show ?R by (intro exI[of _ k]) simp
    next
      assume ?R
      then obtain i where i: "i < length cs" "approxPolyDP lib (cs ! i) 10 True = loc"
        "length loc = 4" "\<forall>j < i. length (approxPolyDP lib (cs ! j) 10 True) \<noteq> 4" by blast
      have "\<forall>j < Suc i. length (approxPolyDP lib ((c # cs) ! j) 10 True) \<noteq> 4"
      proof (intro allI impI)
        fix j assume "j < Suc i"
        then show "length (approxPolyDP lib ((c # cs) ! j) 10 True) \<noteq> 4"
          using False i(4) by (cases j) auto
      qed
      with i show ?L by (intro exI[of _ "Suc i"]) simp
    qed
    with False Cons.IH show ?thesis by (simp add: Let_def)
  qed
qed

section \<open>The bounding box and the crop\<close>

lemma set_matching_indices:
  "set (matching_indices a 255) = {(i, j). is_foreground a i j}"
  by (auto simp: matching_indices_def is_foreground_def)

lemma has_foreground_iff: "has_foreground a \<longleftrightarrow> (\<exists>i j. is_foreground a i j)"
proof
  assume "has_foreground a"
  then obtain row where "row \<in> set a" "255 \<in> set row"
    by (auto simp: has_foreground_def list_ex_iff)
  then obtain i j where "i < length a" "a ! i = row" "j < length row" "row ! j = 255"
    by (metis in_set_conv_nth)
  then have "is_foreground a i j" by (simp add: is_foreground_def)
  then show "\<exists>i j. is_foreground a i j" by blast
next
  assume "\<exists>i j. is_foreground a i j"
  then obtain i j where "i < length a" "j < length (a ! i)" "a ! i ! j = 255"
    by (auto simp: is_foreground_def)
  then have "a ! i \<in> set a" "255 \<in> set (a ! i)"
    by (auto simp: in_set_conv_nth)
  then show "has_foreground a"
    by (auto simp: has_foreground_def list_ex_iff)
qed

lemma np_min_Min:
  assumes "xs \<noteq> []"
  shows "np_min xs = Inr (Min (set xs))"
proof (cases xs)
  case Nil
  with assms show ?thesis by simp
next
  case (Cons y ys)
  have "Min (set (y # ys)) = fold min ys y" by (rule Min.set_eq_fold)
  with Cons show ?thesis by simp
qed

lemma np_max_Max:
  assumes "xs \<noteq> []"
  shows "np_max xs = Inr (Max (set xs))"
proof (cases xs)
  case Nil
  with assms show ?thesis by simp
next
  case (Cons y ys)
  have "Max (set (y # ys)) = fold max ys y" by (rule Max.set_eq_fold)
  with Cons show ?thesis by simp
qed


lemma bounding_box_Min_Max:
  assumes "has_foreground a"
  shows "bounding_box a =
           Inr (Min (fst ` set (matching_indices a 255)), Min (snd ` set (matching_indices a 255)),
                Max (fst ` set (matching_indices a 255)), Max (snd ` set (matching_indices a 255)))"
proof -
  from assms have "set (matching_indices a 255) \<noteq> {}"
    by (auto simp: set_matching_indices has_foreground_iff)
  then have "matching_indices a 255 \<noteq> []" by auto
  then have "map fst (matching_indices a 255) \<noteq> []" "map snd (matching_indices a 255) \<noteq> []"
    by simp_all
  then show ?thesis
    by (simp add: bounding_box_def np_where_eq_def np_min_Min np_max_Max)
qed

lemma slice_nth:
  assumes "hi \<le> length a"
  shows "slice a lo hi = map (\<lambda>i. a ! i) [lo ..< hi]"
proof -
  have "take hi a = map (\<lambda>i. a ! i) [0 ..< hi]"
  proof (rule nth_equalityI)
    show "length (take hi a) = length (map (\<lambda>i. a ! i) [0 ..< hi])" using assms by simp
  next
    fix i assume "i < length (take hi a)"
    then show "take hi a ! i = map (\<lambda>i. a ! i) [0 ..< hi] ! i" by simp
  qed
  then have "drop lo (take hi a) = map (\<lambda>i. a ! i) (drop lo [0 ..< hi])"
    by (simp add: drop_map)
  then show ?thesis by (simp add: slice_def)
qed

section \<open>The four exits of the function\<close>

lemma process_image_no_location:
  assumes "find_location lib (top_contours lib img) = None"
  shows "process_image lib w img =
           \<lparr>returned = Inr (None, None, None), buffer = img, world_after = snd (load_reader lib w)\<rparr>"
  using assms by (simp add: process_image_def not_found_def Let_def case_prod_beta)

lemma process_image_crop_error:
  assumes "find_location lib (top_contours lib img) = Some location"
    and "crop_image (gray_of lib img) (mask_of lib (gray_of lib img) location) = Inl e"
  shows "process_image lib w img =
           \<lparr>returned = Inl e, buffer = img, world_after = snd (load_reader lib w)\<rparr>"
  using assms by (simp add: process_image_def Let_def case_prod_beta)

lemma process_image_no_text:
  assumes "find_location lib (top_contours lib img) = Some location"
    and "crop_image (gray_of lib img) (mask_of lib (gray_of lib img) location) = Inr cropped"
    and "fst (load_reader lib w) cropped = []"
  shows "process_image lib w img =
           \<lparr>returned = Inr (None, None, None), buffer = img,
            world_after = (snd (load_reader lib w))
              \<lparr>readtext_calls := readtext_calls (snd (load_reader lib w)) @ [cropped]\<rparr>\<rparr>"
  using assms by (simp add: process_image_def not_found_def Let_def case_prod_beta)

lemma process_image_text:
  assumes "find_location lib (top_contours lib img) = Some location"
    and "crop_image (gray_of lib img) (mask_of lib (gray_of lib img) location) = Inr cropped"
    and "fst (load_reader lib w) cropped = (box, str, conf) # rest"
  shows "process_image lib w img =
           \<lparr>returned = Inr (Some (annotate lib img str location), Some str, Some cropped),
            buffer = annotate lib img str location,
            world_after = (snd (load_reader lib w))
              \<lparr>readtext_calls := readtext_calls (snd (load_reader lib w)) @ [cropped]\<rparr>\<rparr>"
  using assms by (simp add: process_image_def Let_def case_prod_beta)

lemma readtext_calls_load_reader:
  "readtext_calls (snd (load_reader lib w)) = readtext_calls w"
  by (simp add: load_reader_def Let_def split: option.splits)





section \<open>No quadrilateral, no recognition\<close>

text \<open>
  Claim C5. If none of the ten largest contours has an approximation with four points,
  the function returns the triple of \<^verbatim>\<open>None\<close> and \<^verbatim>\<open>readtext\<close> is not called: the
  record of its calls is what it was before.
\<close>

theorem no_quadrilateral_never_reads_text:
  assumes "\<forall>c \<in> set (top_contours lib img). length (approxPolyDP lib c 10 True) \<noteq> 4"
  shows "returned (process_image lib w img) = Inr (None, None, None) \<and>
         readtext_calls (world_after (process_image lib w img)) = readtext_calls w"
proof -
  from assms have "find_location lib (top_contours lib img) = None"
    by (simp add: find_location_None)
  then show ?thesis
    by (simp add: process_image_no_location readtext_calls_load_reader)
qed

theorem no_quadrilateral_never_reads_text_witness:
  "list_all (\<lambda>c. length (approxPolyDP no_quad_libraries c 10 True) \<noteq> 4)
     (top_contours no_quad_libraries demo_image) \<and>
   returned (process_image no_quad_libraries fresh_world demo_image) = Inr (None, None, None) \<and>
   readtext_calls (world_after (process_image no_quad_libraries fresh_world demo_image)) = []"
proof -
  have l: "list_all (\<lambda>c. length (approxPolyDP no_quad_libraries c 10 True) \<noteq> 4)
             (top_contours no_quad_libraries demo_image)"
    by code_simp
  then have h: "\<forall>c \<in> set (top_contours no_quad_libraries demo_image).
             length (approxPolyDP no_quad_libraries c 10 True) \<noteq> 4"
    by (simp add: list_all_iff)
  have "readtext_calls fresh_world = []" by (simp add: fresh_world_def)
  with l no_quadrilateral_never_reads_text [OF h, of fresh_world] show ?thesis by simp
qed

section \<open>The function on the test doubles\<close>

lemma demo_location:
  "find_location demo_libraries (top_contours demo_libraries demo_image) = Some demo_plate"
  by code_simp

lemma demo_crop:
  "crop_image (gray_of demo_libraries demo_image)
     (mask_of demo_libraries (gray_of demo_libraries demo_image) demo_plate)
   = Inr [[11, 12, 13], [21, 22, 23]]"
  by code_simp

lemma demo_readtext:
  "fst (load_reader demo_libraries fresh_world) [[11, 12, 13], [21, 22, 23]]
   = [([(0, 0)], ''ABC123'', 9 / 10)]"
  by code_simp

lemma no_text_location:
  "find_location no_text_libraries (top_contours no_text_libraries demo_image) = Some demo_plate"
  by code_simp

lemma no_text_crop:
  "crop_image (gray_of no_text_libraries demo_image)
     (mask_of no_text_libraries (gray_of no_text_libraries demo_image) demo_plate)
   = Inr [[11, 12, 13], [21, 22, 23]]"
  by code_simp

lemma no_text_readtext:
  "fst (load_reader no_text_libraries fresh_world) [[11, 12, 13], [21, 22, 23]] = []"
  by code_simp

lemma no_quad_location:
  "find_location no_quad_libraries (top_contours no_quad_libraries demo_image) = None"
  by code_simp



lemma demo_annotated:
  "annotate demo_libraries demo_image ''ABC123'' demo_plate \<noteq> demo_image"
  by code_simp

section \<open>The recognized text\<close>

text \<open>
  Claim C4. Once a location is found and the crop is taken, the outcome follows the result
  of \<^verbatim>\<open>readtext\<close> on the crop: for an empty result the function returns the triple of
  \<^verbatim>\<open>None\<close>; for a result that starts with the entry (box, text, confidence) the text
  returned is that text, and the picture returned is the input with that very text
  handed to \<^verbatim>\<open>putText\<close> and the rectangle drawn after it. With a reader that answers
  one entry whose text is ABC123, the text returned is ABC123.
\<close>

theorem recognized_text_is_first_entry:
  assumes "find_location lib (top_contours lib img) = Some location"
    and "crop_image (gray_of lib img) (mask_of lib (gray_of lib img) location) = Inr cropped"
  shows "case fst (load_reader lib w) cropped of
           [] \<Rightarrow> returned (process_image lib w img) = Inr (None, None, None)
         | (box, str, conf) # rest \<Rightarrow>
             returned (process_image lib w img) =
               Inr (Some (rectangle lib
                            (putText lib img str (text_org location) FONT_HERSHEY_SIMPLEX 1
                               (0, 255, 0) 2 LINE_AA)
                            (location ! 0) (location ! 2) (0, 255, 0) 3),
                    Some str, Some cropped)"
proof (cases "fst (load_reader lib w) cropped")
  case Nil
  with assms show ?thesis by (simp add: process_image_no_text)
next
  case (Cons entry rest)
  obtain box str conf where "entry = (box, str, conf)" by (cases entry) auto
  with Cons have r: "fst (load_reader lib w) cropped = (box, str, conf) # rest" by simp
  show ?thesis
    by (simp add: r process_image_text [OF assms r] annotate_def Let_def)
qed

theorem recognized_text_is_first_entry_witness:
  "find_location demo_libraries (top_contours demo_libraries demo_image) = Some demo_plate \<and>
   crop_image (gray_of demo_libraries demo_image)
     (mask_of demo_libraries (gray_of demo_libraries demo_image) demo_plate)
     = Inr [[11, 12, 13], [21, 22, 23]] \<and>
   fst (load_reader demo_libraries fresh_world) [[11, 12, 13], [21, 22, 23]]
     = [([(0, 0)], ''ABC123'', 9 / 10)] \<and>
   returned (process_image demo_libraries fresh_world demo_image) =
     Inr (Some (rectangle demo_libraries
                  (putText demo_libraries demo_image ''ABC123'' (text_org demo_plate)
                     FONT_HERSHEY_SIMPLEX 1 (0, 255, 0) 2 LINE_AA)
                  (demo_plate ! 0) (demo_plate ! 2) (0, 255, 0) 3),
          Some ''ABC123'', Some [[11, 12, 13], [21, 22, 23]]) \<and>
   fst (load_reader no_text_libraries fresh_world) [[11, 12, 13], [21, 22, 23]] = [] \<and>
   returned (process_image no_text_libraries fresh_world demo_image) = Inr (None, None, None)"
  using recognized_text_is_first_entry [OF demo_location demo_crop, of fresh_world]
    recognized_text_is_first_entry [OF no_text_location no_text_crop, of fresh_world]
    demo_location demo_crop demo_readtext no_text_readtext
  by simp

section \<open>One value for both failures\<close>

text \<open>
  Claim C7. A run that finds no quadrilateral and a run whose reader finds no text return
  the same value, the triple of \<^verbatim>\<open>None\<close>: no picture, no text, no crop.
\<close>

theorem failures_are_indistinguishable:
  assumes "find_location lib1 (top_contours lib1 img1) = None"
    and "find_location lib2 (top_contours lib2 img2) = Some location"
    and "crop_image (gray_of lib2 img2) (mask_of lib2 (gray_of lib2 img2) location) = Inr cropped"
    and "fst (load_reader lib2 w2) cropped = []"
  shows "returned (process_image lib1 w1 img1) = Inr (None, None, None) \<and>
         returned (process_image lib2 w2 img2) = Inr (None, None, None) \<and>
         returned (process_image lib1 w1 img1) = returned (process_image lib2 w2 img2)"
  using assms by (simp add: process_image_no_location process_image_no_text)

theorem failures_are_indistinguishable_witness:
  "find_location no_quad_libraries (top_contours no_quad_libraries demo_image) = None \<and>
   find_location no_text_libraries (top_contours no_text_libraries demo_image) = Some demo_plate \<and>
   crop_image (gray_of no_text_libraries demo_image)
     (mask_of no_text_libraries (gray_of no_text_libraries demo_image) demo_plate)
     = Inr [[11, 12, 13], [21, 22, 23]] \<and>
   fst (load_reader no_text_libraries fresh_world) [[11, 12, 13], [21, 22, 23]] = [] \<and>
   returned (process_image no_quad_libraries fresh_world demo_image) = Inr (None, None, None) \<and>
   returned (process_image no_text_libraries fresh_world demo_image) = Inr (None, None, None) \<and>
   returned (process_image no_quad_libraries fresh_world demo_image)
     = returned (process_image no_text_libraries fresh_world demo_image)"
  using failures_are_indistinguishable
      [OF no_quad_location no_text_location no_text_crop no_text_readtext, of fresh_world]
    no_quad_location no_text_location no_text_crop no_text_readtext
  by simp

section \<open>The input buffer on failure\<close>

text \<open>
  Claim C9. Whenever the function returns the triple of \<^verbatim>\<open>None\<close>, the array it was given
  holds what it held before the call. If the array was changed, then a location was found,
  the crop was taken, \<^verbatim>\<open>readtext\<close> was called on it and gave a result that is not
  empty, and the change is the drawing of that text and of the rectangle.
\<close>

theorem failure_leaves_buffer_unchanged:
  "(returned (process_image lib w img) = Inr (None, None, None)
      \<longrightarrow> buffer (process_image lib w img) = img) \<and>
   (buffer (process_image lib w img) \<noteq> img
      \<longrightarrow> (\<exists>location cropped box str conf rest.
             find_location lib (top_contours lib img) = Some location \<and>
             crop_image (gray_of lib img) (mask_of lib (gray_of lib img) location) = Inr cropped \<and>
             fst (load_reader lib w) cropped = (box, str, conf) # rest \<and>
             readtext_calls (world_after (process_image lib w img)) = readtext_calls w @ [cropped] \<and>
             buffer (process_image lib w img) = annotate lib img str location))"
proof (cases "find_location lib (top_contours lib img)")
  case None
  then show ?thesis by (simp add: process_image_no_location)
next
  case (Some location)
  show ?thesis
  proof (cases "crop_image (gray_of lib img) (mask_of lib (gray_of lib img) location)")
    case (Inl e)
    with Some show ?thesis by (simp add: process_image_crop_error)
  next
    case (Inr cropped)
    show ?thesis
    proof (cases "fst (load_reader lib w) cropped")
      case Nil
      with Some Inr show ?thesis by (simp add: process_image_no_text)
    next
      case (Cons entry rest)
      obtain box str conf where "entry = (box, str, conf)" by (cases entry) auto
      with Cons have r: "fst (load_reader lib w) cropped = (box, str, conf) # rest" by simp
      show ?thesis
        using Some Inr r
        by (simp add: process_image_text [OF Some Inr r] readtext_calls_load_reader)
    qed
  qed
qed

theorem failure_leaves_buffer_unchanged_witness:
  "returned (process_image no_quad_libraries fresh_world demo_image) = Inr (None, None, None) \<and>
   buffer (process_image no_quad_libraries fresh_world demo_image) = demo_image \<and>
   returned (process_image no_text_libraries fresh_world demo_image) = Inr (None, None, None) \<and>
   buffer (process_image no_text_libraries fresh_world demo_image) = demo_image \<and>
   buffer (process_image demo_libraries fresh_world demo_image) \<noteq> demo_image \<and>
   fst (load_reader demo_libraries fresh_world) [[11, 12, 13], [21, 22, 23]]
     = [([(0, 0)], ''ABC123'', 9 / 10)] \<and>
   readtext_calls (world_after (process_image demo_libraries fresh_world demo_image))
     = [[[11, 12, 13], [21, 22, 23]]]"
proof -
  have a: "returned (process_image no_quad_libraries fresh_world demo_image) = Inr (None, None, None)"
    by (simp add: process_image_no_location [OF no_quad_location])
  have b: "returned (process_image no_text_libraries fresh_world demo_image) = Inr (None, None, None)"
    by (simp add: process_image_no_text [OF no_text_location no_text_crop no_text_readtext])
  have c: "buffer (process_image demo_libraries fresh_world demo_image) \<noteq> demo_image"
    by (simp add: process_image_text [OF demo_location demo_crop demo_readtext] demo_annotated)
  have d: "readtext_calls fresh_world = []" by (simp add: fresh_world_def)
  from failure_leaves_buffer_unchanged [of no_quad_libraries fresh_world demo_image] a
  have 1: "buffer (process_image no_quad_libraries fresh_world demo_image) = demo_image" by simp
  from failure_leaves_buffer_unchanged [of no_text_libraries fresh_world demo_image] b
  have 2: "buffer (process_image no_text_libraries fresh_world demo_image) = demo_image" by simp
  from failure_leaves_buffer_unchanged [of demo_libraries fresh_world demo_image] c
  have 3: "readtext_calls (world_after (process_image demo_libraries fresh_world demo_image))
     = [[[11, 12, 13], [21, 22, 23]]]"
    using demo_location demo_crop d by auto
  from a b c 1 2 3 demo_readtext show ?thesis by simp
qed

section \<open>The crop within the picture\<close>

lemma has_shape_row:
  assumes "has_shape a h w" and "i < h"
  shows "length (a ! i) = w"
  using assms by (simp add: has_shape_def list_all_length)

lemma has_shape_np_zeros:
  assumes "has_shape gray h w"
  shows "has_shape (np_zeros (shape gray)) h w"
proof (cases gray)
  case Nil
  with assms show ?thesis by (simp add: has_shape_def np_zeros_def shape_def)
next
  case (Cons row rows)
  with assms have "length row = w" "length gray = h" by (simp_all add: has_shape_def)
  with Cons show ?thesis
    by (simp add: has_shape_def np_zeros_def shape_def list_all_length)
qed

lemma mask_of_shape:
  assumes "has_shape gray h w"
    and "\<And>a. has_shape a h w \<Longrightarrow> has_shape (drawContours lib a [location] 0 255 (- 1)) h w"
  shows "has_shape (mask_of lib gray location) h w"
  unfolding mask_of_def by (rule assms(2)) (rule has_shape_np_zeros [OF assms(1)])

lemma is_foreground_in_shape:
  assumes "has_shape a h w" and "is_foreground a i j"
  shows "i < h \<and> j < w"
proof -
  from assms(2) have i: "i < length a" and j: "j < length (a ! i)"
    by (simp_all add: is_foreground_def)
  from assms(1) i have "i < h" by (simp add: has_shape_def)
  moreover from this j have "j < w" using has_shape_row [OF assms(1)] by simp
  ultimately show ?thesis by simp
qed

lemma bounding_box_encloses:
  assumes "has_foreground a"
  shows "\<exists>x1 y1 x2 y2.
           bounding_box a = Inr (x1, y1, x2, y2) \<and>
           (\<forall>i j. is_foreground a i j \<longrightarrow> x1 \<le> i \<and> i \<le> x2 \<and> y1 \<le> j \<and> j \<le> y2) \<and>
           (\<exists>j. is_foreground a x1 j) \<and> (\<exists>j. is_foreground a x2 j) \<and>
           (\<exists>i. is_foreground a i y1) \<and> (\<exists>i. is_foreground a i y2)"
proof -
  define H where "H = set (matching_indices a 255)"
  have fin: "finite H" by (simp add: H_def)
  have mem: "(i, j) \<in> H \<longleftrightarrow> is_foreground a i j" for i j
    by (simp add: H_def set_matching_indices)
  from assms have ne: "H \<noteq> {}"
    using mem by (auto simp: has_foreground_iff)
  have finf: "finite (fst ` H)" "finite (snd ` H)" using fin by simp_all
  have nef: "fst ` H \<noteq> {}" "snd ` H \<noteq> {}" using ne by simp_all
  have bb: "bounding_box a = Inr (Min (fst ` H), Min (snd ` H), Max (fst ` H), Max (snd ` H))"
    unfolding H_def by (rule bounding_box_Min_Max [OF assms])
  have enc: "Min (fst ` H) \<le> i \<and> i \<le> Max (fst ` H) \<and> Min (snd ` H) \<le> j \<and> j \<le> Max (snd ` H)"
    if "is_foreground a i j" for i j
  proof -
    from that have "(i, j) \<in> H" by (simp add: mem)
    then have "i \<in> fst ` H" "j \<in> snd ` H" by force+
    then show ?thesis using finf by (simp add: Min_le Max_ge)
  qed
  have "Min (fst ` H) \<in> fst ` H" using finf nef by simp
  then have t1: "\<exists>j. is_foreground a (Min (fst ` H)) j" using mem by force
  have "Max (fst ` H) \<in> fst ` H" using finf nef by simp
  then have t2: "\<exists>j. is_foreground a (Max (fst ` H)) j" using mem by force
  have "Min (snd ` H) \<in> snd ` H" using finf nef by simp
  then have t3: "\<exists>i. is_foreground a i (Min (snd ` H))" using mem by force
  have "Max (snd ` H) \<in> snd ` H" using finf nef by simp
  then have t4: "\<exists>i. is_foreground a i (Max (snd ` H))" using mem by force
  from bb enc t1 t2 t3 t4 show ?thesis by blast
qed

lemma crop_image_entries:
  assumes "has_shape gray h w"
    and "bounding_box a = Inr (x1, y1, x2, y2)"
    and "x2 < h" and "y2 < w"
  shows "crop_image gray a =
           Inr (map (\<lambda>i. map (\<lambda>j. gray ! i ! j) [y1 ..< y2 + 1]) [x1 ..< x2 + 1])"
proof -
  from assms(1,3) have "x2 + 1 \<le> length gray" by (simp add: has_shape_def)
  then have rows: "slice gray x1 (x2 + 1) = map (\<lambda>i. gray ! i) [x1 ..< x2 + 1]"
    by (rule slice_nth)
  have cols: "slice (gray ! i) y1 (y2 + 1) = map (\<lambda>j. gray ! i ! j) [y1 ..< y2 + 1]"
    if "i \<in> set [x1 ..< x2 + 1]" for i
  proof -
    from that have "i \<le> x2" by auto
    with assms(3) have "i < h" by simp
    then have "length (gray ! i) = w" by (rule has_shape_row [OF assms(1)])
    with assms(4) have "y2 + 1 \<le> length (gray ! i)" by simp
    then show ?thesis by (rule slice_nth)
  qed
  have "map (\<lambda>row. slice row y1 (y2 + 1)) (slice gray x1 (x2 + 1))
        = map (\<lambda>i. slice (gray ! i) y1 (y2 + 1)) [x1 ..< x2 + 1]"
    by (simp only: rows map_map comp_def)
  also have "\<dots> = map (\<lambda>i. map (\<lambda>j. gray ! i ! j) [y1 ..< y2 + 1]) [x1 ..< x2 + 1]"
    by (rule map_cong [OF refl]) (rule cols)
  finally show ?thesis by (simp only: crop_image_def assms(2) sum.case prod.case)
qed

lemma full_array_entries:
  assumes "has_shape gray h w"
  shows "map (\<lambda>i. map (\<lambda>j. gray ! i ! j) [0 ..< w]) [0 ..< h] = gray"
proof (rule nth_equalityI)
  show "length (map (\<lambda>i. map (\<lambda>j. gray ! i ! j) [0 ..< w]) [0 ..< h]) = length gray"
    using assms by (simp add: has_shape_def)
next
  fix i assume "i < length (map (\<lambda>i. map (\<lambda>j. gray ! i ! j) [0 ..< w]) [0 ..< h])"
  then have i: "i < h" by simp
  then have "length (gray ! i) = w" by (rule has_shape_row [OF assms])
  then have "map (\<lambda>j. gray ! i ! j) [0 ..< w] = gray ! i"
    using map_nth [of "gray ! i"] by simp
  with i show "map (\<lambda>i. map (\<lambda>j. gray ! i ! j) [0 ..< w]) [0 ..< h] ! i = gray ! i"
    by simp
qed


lemma bounding_box_in_shape:
  assumes "has_shape a h w" and "has_foreground a"
  shows "\<exists>x1 y1 x2 y2.
           bounding_box a = Inr (x1, y1, x2, y2) \<and>
           (\<forall>i j. is_foreground a i j \<longrightarrow> x1 \<le> i \<and> i \<le> x2 \<and> y1 \<le> j \<and> j \<le> y2) \<and>
           (\<exists>j. is_foreground a x1 j) \<and> (\<exists>j. is_foreground a x2 j) \<and>
           (\<exists>i. is_foreground a i y1) \<and> (\<exists>i. is_foreground a i y2) \<and>
           x1 \<le> x2 \<and> y1 \<le> y2 \<and> x2 < h \<and> y2 < w"
proof -
  from bounding_box_encloses [OF assms(2)] obtain x1 y1 x2 y2 where
    bb: "bounding_box a = Inr (x1, y1, x2, y2)"
    and enc: "\<forall>i j. is_foreground a i j \<longrightarrow> x1 \<le> i \<and> i \<le> x2 \<and> y1 \<le> j \<and> j \<le> y2"
    and t1: "\<exists>j. is_foreground a x1 j" and t2: "\<exists>j. is_foreground a x2 j"
    and t3: "\<exists>i. is_foreground a i y1" and t4: "\<exists>i. is_foreground a i y2"
    by blast
  from t1 enc have "x1 \<le> x2" by blast
  moreover from t3 enc have "y1 \<le> y2" by blast
  moreover from t2 have "x2 < h" using is_foreground_in_shape [OF assms(1)] by blast
  moreover from t4 have "y2 < w" using is_foreground_in_shape [OF assms(1)] by blast
  ultimately show ?thesis using bb enc t1 t2 t3 t4 by blast
qed

lemma full_mask_corners:
  assumes "has_shape a h w" and "has_foreground a"
    and "list_all (list_all (\<lambda>p. p = 255)) a"
  shows "is_foreground a 0 0 \<and> is_foreground a (h - 1) (w - 1)"
proof -
  from assms(2) obtain i j where "is_foreground a i j"
    by (auto simp: has_foreground_iff)
  then have "i < h" "j < w" using is_foreground_in_shape [OF assms(1)] by blast+
  then have h: "0 < h" and w: "0 < w" by simp_all
  have all: "a ! i ! j = 255" if "i < h" "j < w" for i j
  proof -
    from that(1) assms(1) have "i < length a" by (simp add: has_shape_def)
    with assms(3) have "list_all (\<lambda>p. p = 255) (a ! i)" by (simp add: list_all_length)
    moreover from that have "j < length (a ! i)" using has_shape_row [OF assms(1)] by simp
    ultimately show ?thesis by (simp add: list_all_length)
  qed
  from h w have "h - 1 < h" "w - 1 < w" by simp_all
  with h w assms(1) all show ?thesis
    using has_shape_row [OF assms(1)]
    by (simp add: is_foreground_def has_shape_def)
qed

lemma demo_gray_shape: "has_shape (gray_of demo_libraries demo_image) 4 5"
  by code_simp

lemma demo_mask_shape:
  "has_shape (mask_of demo_libraries (gray_of demo_libraries demo_image) demo_plate) 4 5"
  by code_simp

lemma demo_mask_foreground:
  "has_foreground (mask_of demo_libraries (gray_of demo_libraries demo_image) demo_plate)"
  by code_simp

lemma demo_bounding_box:
  "bounding_box (mask_of demo_libraries (gray_of demo_libraries demo_image) demo_plate)
   = Inr (1, 1, 2, 3)"
  by code_simp

lemma full_mask_shape:
  "has_shape (mask_of full_mask_libraries (gray_of demo_libraries demo_image) demo_plate) 4 5"
  by code_simp

lemma full_mask_foreground:
  "has_foreground (mask_of full_mask_libraries (gray_of demo_libraries demo_image) demo_plate)"
  by code_simp

lemma full_mask_all:
  "list_all (list_all (\<lambda>p. p = 255))
     (mask_of full_mask_libraries (gray_of demo_libraries demo_image) demo_plate)"
  by code_simp

text \<open>
  Claim C3. For a grayscale picture and a mask of the same shape with at least one
  foreground entry, lines 62 to 64 find the rows x1 to x2 and the columns y1 to y2 such that
  every foreground entry lies in that rectangle and each of its four sides holds a
  foreground entry, so no smaller rectangle encloses the foreground; the crop is the
  grayscale picture at exactly these rows and columns. When every entry of the mask is
  foreground, the crop is the whole grayscale picture.
\<close>

theorem crop_is_bounding_rectangle_of_mask:
  assumes "has_shape gray h w" and "has_shape mask_array h w" and "has_foreground mask_array"
  shows "\<exists>x1 y1 x2 y2.
           bounding_box mask_array = Inr (x1, y1, x2, y2) \<and>
           (\<forall>i j. is_foreground mask_array i j \<longrightarrow> x1 \<le> i \<and> i \<le> x2 \<and> y1 \<le> j \<and> j \<le> y2) \<and>
           (\<exists>j. is_foreground mask_array x1 j) \<and> (\<exists>j. is_foreground mask_array x2 j) \<and>
           (\<exists>i. is_foreground mask_array i y1) \<and> (\<exists>i. is_foreground mask_array i y2) \<and>
           crop_image gray mask_array =
             Inr (map (\<lambda>i. map (\<lambda>j. gray ! i ! j) [y1 ..< y2 + 1]) [x1 ..< x2 + 1]) \<and>
           (list_all (list_all (\<lambda>p. p = 255)) mask_array \<longrightarrow> crop_image gray mask_array = Inr gray)"
proof -
  from bounding_box_in_shape [OF assms(2,3)] obtain x1 y1 x2 y2 where
    bb: "bounding_box mask_array = Inr (x1, y1, x2, y2)"
    and enc: "\<forall>i j. is_foreground mask_array i j \<longrightarrow> x1 \<le> i \<and> i \<le> x2 \<and> y1 \<le> j \<and> j \<le> y2"
    and t1: "\<exists>j. is_foreground mask_array x1 j" and t2: "\<exists>j. is_foreground mask_array x2 j"
    and t3: "\<exists>i. is_foreground mask_array i y1" and t4: "\<exists>i. is_foreground mask_array i y2"
    and x2: "x2 < h" and y2: "y2 < w"
    by blast
  have crop: "crop_image gray mask_array =
             Inr (map (\<lambda>i. map (\<lambda>j. gray ! i ! j) [y1 ..< y2 + 1]) [x1 ..< x2 + 1])"
    by (rule crop_image_entries [OF assms(1) bb x2 y2])
  have full: "crop_image gray mask_array = Inr gray"
    if "list_all (list_all (\<lambda>p. p = 255)) mask_array"
  proof -
    from full_mask_corners [OF assms(2,3) that]
    have c0: "is_foreground mask_array 0 0" and c1: "is_foreground mask_array (h - 1) (w - 1)"
      by simp_all
    from enc c0 have "x1 \<le> 0 \<and> y1 \<le> 0" by blast
    then have "x1 = 0" "y1 = 0" by simp_all
    moreover from enc c1 have "h - 1 \<le> x2 \<and> w - 1 \<le> y2" by blast
    with x2 y2 have "x2 + 1 = h" "y2 + 1 = w" by arith+
    ultimately show ?thesis
      using crop by (simp only: full_array_entries [OF assms(1)])
  qed
  from bb enc t1 t2 t3 t4 crop full show ?thesis by blast
qed

theorem crop_is_bounding_rectangle_of_mask_witness:
  "has_shape (gray_of demo_libraries demo_image) 4 5 \<and>
   has_shape (mask_of demo_libraries (gray_of demo_libraries demo_image) demo_plate) 4 5 \<and>
   has_foreground (mask_of demo_libraries (gray_of demo_libraries demo_image) demo_plate) \<and>
   bounding_box (mask_of demo_libraries (gray_of demo_libraries demo_image) demo_plate)
     = Inr (1, 1, 2, 3) \<and>
   crop_image (gray_of demo_libraries demo_image)
     (mask_of demo_libraries (gray_of demo_libraries demo_image) demo_plate)
     = Inr (map (\<lambda>i. map (\<lambda>j. gray_of demo_libraries demo_image ! i ! j) [1 ..< 3 + 1])
              [1 ..< 2 + 1]) \<and>
   crop_image (gray_of demo_libraries demo_image)
     (mask_of demo_libraries (gray_of demo_libraries demo_image) demo_plate)
     = Inr [[11, 12, 13], [21, 22, 23]] \<and>
   has_shape (mask_of full_mask_libraries (gray_of demo_libraries demo_image) demo_plate) 4 5 \<and>
   has_foreground (mask_of full_mask_libraries (gray_of demo_libraries demo_image) demo_plate) \<and>
   list_all (list_all (\<lambda>p. p = 255))
     (mask_of full_mask_libraries (gray_of demo_libraries demo_image) demo_plate) \<and>
   crop_image (gray_of demo_libraries demo_image)
     (mask_of full_mask_libraries (gray_of demo_libraries demo_image) demo_plate)
     = Inr (gray_of demo_libraries demo_image)"
proof -
  from crop_is_bounding_rectangle_of_mask
         [OF demo_gray_shape demo_mask_shape demo_mask_foreground]
  obtain x1 y1 x2 y2 where
    bb: "bounding_box (mask_of demo_libraries (gray_of demo_libraries demo_image) demo_plate)
           = Inr (x1, y1, x2, y2)"
    and crop: "crop_image (gray_of demo_libraries demo_image)
                 (mask_of demo_libraries (gray_of demo_libraries demo_image) demo_plate)
               = Inr (map (\<lambda>i. map (\<lambda>j. gray_of demo_libraries demo_image ! i ! j)
                        [y1 ..< y2 + 1]) [x1 ..< x2 + 1])"
    by blast
  from bb have "x1 = 1" "y1 = 1" "x2 = 2" "y2 = 3"
    by (simp_all only: demo_bounding_box sum.inject prod.inject)
  with crop have a: "crop_image (gray_of demo_libraries demo_image)
                 (mask_of demo_libraries (gray_of demo_libraries demo_image) demo_plate)
               = Inr (map (\<lambda>i. map (\<lambda>j. gray_of demo_libraries demo_image ! i ! j)
                        [1 ..< 3 + 1]) [1 ..< 2 + 1])"
    by (simp only:)
  from crop_is_bounding_rectangle_of_mask
         [OF demo_gray_shape full_mask_shape full_mask_foreground] full_mask_all
  have b: "crop_image (gray_of demo_libraries demo_image)
             (mask_of full_mask_libraries (gray_of demo_libraries demo_image) demo_plate)
           = Inr (gray_of demo_libraries demo_image)"
    by blast
  from a b demo_crop demo_gray_shape demo_mask_shape demo_mask_foreground demo_bounding_box
    full_mask_shape full_mask_foreground full_mask_all
  show ?thesis by (intro conjI)
qed

text \<open>
  Claim C10. For a grayscale picture of \<open>h\<close> rows and \<open>w\<close> columns and a mask of the same
  shape with at least one foreground entry, the bounds found satisfy x1 \<le> x2 < h and
  y1 \<le> y2 < w, and the crop has x2 - x1 + 1 rows and y2 - y1 + 1 columns: at least one of
  each, and no more than the picture has.
\<close>

theorem crop_is_nonempty_and_in_bounds:
  assumes "has_shape gray h w" and "has_shape mask_array h w" and "has_foreground mask_array"
  shows "\<exists>x1 y1 x2 y2 cropped.
           bounding_box mask_array = Inr (x1, y1, x2, y2) \<and>
           crop_image gray mask_array = Inr cropped \<and>
           x1 \<le> x2 \<and> y1 \<le> y2 \<and> x2 < h \<and> y2 < w \<and>
           has_shape cropped (x2 - x1 + 1) (y2 - y1 + 1) \<and>
           1 \<le> x2 - x1 + 1 \<and> x2 - x1 + 1 \<le> h \<and> 1 \<le> y2 - y1 + 1 \<and> y2 - y1 + 1 \<le> w"
proof -
  from bounding_box_in_shape [OF assms(2,3)] obtain x1 y1 x2 y2 where
    bb: "bounding_box mask_array = Inr (x1, y1, x2, y2)"
    and le: "x1 \<le> x2" "y1 \<le> y2" and lt: "x2 < h" "y2 < w"
    by blast
  define cropped where
    "cropped = map (\<lambda>i. map (\<lambda>j. gray ! i ! j) [y1 ..< y2 + 1]) [x1 ..< x2 + 1]"
  have crop: "crop_image gray mask_array = Inr cropped"
    unfolding cropped_def by (rule crop_image_entries [OF assms(1) bb lt])
  have "length cropped = x2 - x1 + 1" using le by (simp add: cropped_def)
  moreover have "list_all (\<lambda>row. length row = y2 - y1 + 1) cropped"
    using le by (simp add: cropped_def list_all_iff)
  ultimately have sh: "has_shape cropped (x2 - x1 + 1) (y2 - y1 + 1)"
    by (simp add: has_shape_def)
  from le lt have "1 \<le> x2 - x1 + 1" "x2 - x1 + 1 \<le> h" "1 \<le> y2 - y1 + 1" "y2 - y1 + 1 \<le> w"
    by simp_all
  with bb crop le lt sh show ?thesis by blast
qed


theorem crop_is_nonempty_and_in_bounds_witness:
  "has_shape (gray_of demo_libraries demo_image) 4 5 \<and>
   has_shape (mask_of demo_libraries (gray_of demo_libraries demo_image) demo_plate) 4 5 \<and>
   has_foreground (mask_of demo_libraries (gray_of demo_libraries demo_image) demo_plate) \<and>
   bounding_box (mask_of demo_libraries (gray_of demo_libraries demo_image) demo_plate)
     = Inr (1, 1, 2, 3) \<and>
   (\<exists>cropped. crop_image (gray_of demo_libraries demo_image)
       (mask_of demo_libraries (gray_of demo_libraries demo_image) demo_plate) = Inr cropped \<and>
     has_shape cropped (2 - 1 + 1) (3 - 1 + 1))"
proof -
  from crop_is_nonempty_and_in_bounds
         [OF demo_gray_shape demo_mask_shape demo_mask_foreground]
  obtain x1 y1 x2 y2 cropped where
    bb: "bounding_box (mask_of demo_libraries (gray_of demo_libraries demo_image) demo_plate)
           = Inr (x1, y1, x2, y2)"
    and crop: "crop_image (gray_of demo_libraries demo_image)
                 (mask_of demo_libraries (gray_of demo_libraries demo_image) demo_plate)
               = Inr cropped"
    and sh: "has_shape cropped (x2 - x1 + 1) (y2 - y1 + 1)"
    by blast
  from bb have "x1 = 1" "y1 = 1" "x2 = 2" "y2 = 3"
    by (simp_all only: demo_bounding_box sum.inject prod.inject)
  with sh have "has_shape cropped (2 - 1 + 1) (3 - 1 + 1)" by (simp only:)
  with crop have "\<exists>cropped. crop_image (gray_of demo_libraries demo_image)
       (mask_of demo_libraries (gray_of demo_libraries demo_image) demo_plate) = Inr cropped \<and>
     has_shape cropped (2 - 1 + 1) (3 - 1 + 1)" by blast
  with demo_gray_shape demo_mask_shape demo_mask_foreground demo_bounding_box
  show ?thesis by (intro conjI)
qed

section \<open>The plate locator\<close>

lemma top_contours_length:
  "length (top_contours lib img) = min 10 (length (all_contours lib img))"
  by (simp add: top_contours_def sorted_reverse_def)

lemma dropped_contours_not_larger:
  assumes "a \<in> set (take n (sorted_reverse key xs))"
    and "b \<in> set (drop n (sorted_reverse key xs))"
  shows "key b \<le> key a"
proof -
  have "sorted_wrt (\<lambda>a b. key b \<le> key a)
          (take n (sorted_reverse key xs) @ drop n (sorted_reverse key xs))"
    by (simp only: append_take_drop_id sorted_reverse_descending)
  then have "\<forall>x \<in> set (take n (sorted_reverse key xs)).
               \<forall>y \<in> set (drop n (sorted_reverse key xs)). key y \<le> key x"
    unfolding sorted_wrt_append by (elim conjE)
  with assms show ?thesis by blast
qed

lemma demo_top_contours:
  "top_contours demo_libraries demo_image = [demo_triangle, demo_plate, demo_small]"
  by code_simp

lemma no_quad_all:
  "list_all (\<lambda>c. length (approxPolyDP no_quad_libraries c 10 True) \<noteq> 4)
     (top_contours no_quad_libraries demo_image)"
  by code_simp

text \<open>
  Claim C1. The contours found in the edge map are put in descending order of their area
  (the same contours, none lost or added), and the first ten of that order are kept, so no
  contour left out has a larger area than one kept. The location is the approximation, with
  tolerance 10, of the first kept contour whose approximation has exactly four points. If
  no kept contour has such an approximation there is no location, and the function returns
  the triple of \<^verbatim>\<open>None\<close>.
\<close>

theorem locator_takes_first_quadrilateral_of_ten_largest:
  "mset (sorted_reverse (contourArea lib) (all_contours lib img)) = mset (all_contours lib img) \<and>
   sorted_wrt (\<lambda>a b. contourArea lib b \<le> contourArea lib a)
     (sorted_reverse (contourArea lib) (all_contours lib img)) \<and>
   top_contours lib img = take 10 (sorted_reverse (contourArea lib) (all_contours lib img)) \<and>
   length (top_contours lib img) = min 10 (length (all_contours lib img)) \<and>
   (\<forall>a \<in> set (top_contours lib img).
      \<forall>b \<in> set (drop 10 (sorted_reverse (contourArea lib) (all_contours lib img))).
        contourArea lib b \<le> contourArea lib a) \<and>
   (\<forall>loc. find_location lib (top_contours lib img) = Some loc \<longleftrightarrow>
      (\<exists>i < length (top_contours lib img).
         approxPolyDP lib (top_contours lib img ! i) 10 True = loc \<and> length loc = 4 \<and>
         (\<forall>j < i. length (approxPolyDP lib (top_contours lib img ! j) 10 True) \<noteq> 4))) \<and>
   ((\<forall>c \<in> set (top_contours lib img). length (approxPolyDP lib c 10 True) \<noteq> 4) \<longrightarrow>
      find_location lib (top_contours lib img) = None \<and>
      returned (process_image lib w img) = Inr (None, None, None))"
proof (intro conjI)
  show "mset (sorted_reverse (contourArea lib) (all_contours lib img)) = mset (all_contours lib img)"
    by (rule mset_sorted_reverse)
  show "sorted_wrt (\<lambda>a b. contourArea lib b \<le> contourArea lib a)
     (sorted_reverse (contourArea lib) (all_contours lib img))"
    by (rule sorted_reverse_descending)
  show "top_contours lib img = take 10 (sorted_reverse (contourArea lib) (all_contours lib img))"
    by (simp add: top_contours_def)
  show "length (top_contours lib img) = min 10 (length (all_contours lib img))"
    by (rule top_contours_length)
  show "\<forall>a \<in> set (top_contours lib img).
      \<forall>b \<in> set (drop 10 (sorted_reverse (contourArea lib) (all_contours lib img))).
        contourArea lib b \<le> contourArea lib a"
    unfolding top_contours_def by (intro ballI) (rule dropped_contours_not_larger)
  show "\<forall>loc. find_location lib (top_contours lib img) = Some loc \<longleftrightarrow>
      (\<exists>i < length (top_contours lib img).
         approxPolyDP lib (top_contours lib img ! i) 10 True = loc \<and> length loc = 4 \<and>
         (\<forall>j < i. length (approxPolyDP lib (top_contours lib img ! j) 10 True) \<noteq> 4))"
    by (intro allI) (rule find_location_Some)
  show "(\<forall>c \<in> set (top_contours lib img). length (approxPolyDP lib c 10 True) \<noteq> 4) \<longrightarrow>
      find_location lib (top_contours lib img) = None \<and>
      returned (process_image lib w img) = Inr (None, None, None)"
  proof
    assume "\<forall>c \<in> set (top_contours lib img). length (approxPolyDP lib c 10 True) \<noteq> 4"
    then have "find_location lib (top_contours lib img) = None"
      by (simp add: find_location_None)
    then show "find_location lib (top_contours lib img) = None \<and>
      returned (process_image lib w img) = Inr (None, None, None)"
      by (simp add: process_image_no_location)
  qed
qed

theorem locator_takes_first_quadrilateral_of_ten_largest_witness:
  "top_contours demo_libraries demo_image = [demo_triangle, demo_plate, demo_small] \<and>
   find_location demo_libraries (top_contours demo_libraries demo_image) = Some demo_plate \<and>
   (\<exists>i < length (top_contours demo_libraries demo_image).
      approxPolyDP demo_libraries (top_contours demo_libraries demo_image ! i) 10 True = demo_plate \<and>
      length demo_plate = 4 \<and>
      (\<forall>j < i. length (approxPolyDP demo_libraries (top_contours demo_libraries demo_image ! j) 10 True)
               \<noteq> 4)) \<and>
   list_all (\<lambda>c. length (approxPolyDP no_quad_libraries c 10 True) \<noteq> 4)
     (top_contours no_quad_libraries demo_image) \<and>
   find_location no_quad_libraries (top_contours no_quad_libraries demo_image) = None \<and>
   returned (process_image no_quad_libraries fresh_world demo_image) = Inr (None, None, None)"
proof -
  note a = locator_takes_first_quadrilateral_of_ten_largest
             [of demo_libraries demo_image fresh_world]
  note b = locator_takes_first_quadrilateral_of_ten_largest
             [of no_quad_libraries demo_image fresh_world]
  from a demo_location
  have 1: "\<exists>i < length (top_contours demo_libraries demo_image).
      approxPolyDP demo_libraries (top_contours demo_libraries demo_image ! i) 10 True = demo_plate \<and>
      length demo_plate = 4 \<and>
      (\<forall>j < i. length (approxPolyDP demo_libraries (top_contours demo_libraries demo_image ! j) 10 True)
               \<noteq> 4)"
    by blast
  from no_quad_all
  have "\<forall>c \<in> set (top_contours no_quad_libraries demo_image).
          length (approxPolyDP no_quad_libraries c 10 True) \<noteq> 4"
    by (simp add: list_all_iff)
  with b have 2: "find_location no_quad_libraries (top_contours no_quad_libraries demo_image) = None \<and>
      returned (process_image no_quad_libraries fresh_world demo_image) = Inr (None, None, None)"
    by blast
  from 1 2 demo_top_contours demo_location no_quad_all show ?thesis by (intro conjI) simp_all
qed

section \<open>A mask with no foreground\<close>







section \<open>The annotation\<close>

text \<open>
  Claim C6 places the text above the second point of the polygon, 60 pixels away. Line 78
  takes the column of the text origin from point 0 and its row from point 1 plus 60, and
  rows count downwards: for the quadrilateral (10, 20), (50, 22), (52, 40), (12, 38) the
  origin is (10, 82), which is neither in the column of point 1 nor above it.
\<close>

theorem text_origin_not_above_second_point:
  "skewed_plate ! 1 = (50, 22) \<and>
   text_org skewed_plate = (10, 82) \<and>
   text_org skewed_plate \<noteq> (fst (skewed_plate ! 1), snd (skewed_plate ! 1) - 60) \<and>
   fst (text_org skewed_plate) \<noteq> fst (skewed_plate ! 1) \<and>
   \<not> snd (text_org skewed_plate) < snd (skewed_plate ! 1)"
  by (simp add: text_org_def skewed_plate_def)

text \<open>
  Claim C6 as amended. On the success path the location has four points; the text is drawn
  with its origin at the column of point 0 and the row of point 1 plus 60, then the
  rectangle with points 0 and 2 as opposite corners, in colour (0, 255, 0); both are drawn
  into the array the function was given, and that array is the picture returned.
\<close>

theorem annotation_uses_points_0_1_2:
  assumes "find_location lib (top_contours lib img) = Some location"
    and "crop_image (gray_of lib img) (mask_of lib (gray_of lib img) location) = Inr cropped"
    and "fst (load_reader lib w) cropped = (box, str, conf) # rest"
  shows "length location = 4 \<and>
         buffer (process_image lib w img) =
           rectangle lib
             (putText lib img str (fst (location ! 0), snd (location ! 1) + 60)
                FONT_HERSHEY_SIMPLEX 1 (0, 255, 0) 2 LINE_AA)
             (location ! 0) (location ! 2) (0, 255, 0) 3 \<and>
         returned (process_image lib w img) =
           Inr (Some (buffer (process_image lib w img)), Some str, Some cropped)"
proof -
  from assms(1) have "length location = 4"
    by (auto simp: find_location_Some)
  then show ?thesis
    by (simp add: process_image_text [OF assms] annotate_def text_org_def Let_def)
qed

theorem annotation_uses_points_0_1_2_witness:
  "find_location demo_libraries (top_contours demo_libraries demo_image) = Some demo_plate \<and>
   crop_image (gray_of demo_libraries demo_image)
     (mask_of demo_libraries (gray_of demo_libraries demo_image) demo_plate)
     = Inr [[11, 12, 13], [21, 22, 23]] \<and>
   fst (load_reader demo_libraries fresh_world) [[11, 12, 13], [21, 22, 23]]
     = [([(0, 0)], ''ABC123'', 9 / 10)] \<and>
   length demo_plate = 4 \<and>
   buffer (process_image demo_libraries fresh_world demo_image) =
     rectangle demo_libraries
       (putText demo_libraries demo_image ''ABC123''
          (fst (demo_plate ! 0), snd (demo_plate ! 1) + 60)
          FONT_HERSHEY_SIMPLEX 1 (0, 255, 0) 2 LINE_AA)
       (demo_plate ! 0) (demo_plate ! 2) (0, 255, 0) 3 \<and>
   returned (process_image demo_libraries fresh_world demo_image) =
     Inr (Some (buffer (process_image demo_libraries fresh_world demo_image)), Some ''ABC123'',
          Some [[11, 12, 13], [21, 22, 23]])"
  using annotation_uses_points_0_1_2 [OF demo_location demo_crop demo_readtext]
    demo_location demo_crop demo_readtext
  by (intro conjI) simp_all

section \<open>Running the function twice\<close>






end
